theory Spec2Isabelle
  imports Complex_Main "HOL-Library.Multiset"
begin

section \<open>Data model (App.tsx, TimelineEditor.tsx)\<close>

text \<open>
  The interfaces of the source become records. Several interfaces share field names
  (\<open>id\<close>, \<open>name\<close>, \<open>createdAt\<close>), so every field carries a one-letter prefix
  of its interface: \<open>v_\<close> for VideoItem, \<open>g_\<close> for GalleryItem, \<open>p_\<close> for Project.
  JavaScript strings are modelled as \<open>string\<close>; numbers that hold \<open>Date.now()\<close>
  are \<open>int\<close> (milliseconds), media times and crop values are exact rationals.
\<close>

record File =
  file_type :: string
  file_name :: string

record Crop =
  crop_scale :: rat
  crop_x :: rat
  crop_y :: rat

record VideoItem =
  v_id :: string
  v_file :: File
  v_url :: string
  v_name :: string
  v_crop :: "Crop option"

datatype GalleryType = Inicio | Final | Manual

record GalleryItem =
  g_id :: string
  g_src :: string
  g_type :: GalleryType
  g_videoName :: string
  g_createdAt :: int

datatype AspectRatio = R16_9 | R9_16 | R1_1

record Project =
  p_id :: string
  p_name :: string
  p_aspectRatio :: AspectRatio
  p_createdAt :: int
  p_lastModified :: int
  p_videos :: "VideoItem list"
  p_galleryItems :: "GalleryItem list"

datatype View = Timeline | Gallery

text \<open>
  The state of the \<open>App\<close> component: one field per \<open>useState\<close> hook, plus
  \<open>objectURLs\<close>, the browser's registry of live object URLs
  (\<open>URL.createObjectURL\<close> adds one, \<open>URL.revokeObjectURL\<close> removes it).
  A JavaScript \<open>Set\<close> iterates in insertion order, so \<open>selectedGalleryIds\<close> is
  the list of its members in that order.
\<close>

record App =
  projects :: "Project list"
  activeProjectId :: "string option"
  activeProjectDuration :: rat
  isCreatingProject :: bool
  newProjectName :: string
  newProjectRatio :: AspectRatio
  currentView :: View
  selectedGalleryIds :: "string list"
  objectURLs :: "string set"

definition initialApp :: App where
  "initialApp =
     \<lparr>projects = [], activeProjectId = None, activeProjectDuration = 0,
      isCreatingProject = False, newProjectName = [], newProjectRatio = R16_9,
      currentView = Timeline, selectedGalleryIds = [], objectURLs = {}\<rparr>"

subsection \<open>JavaScript primitives used by the handlers\<close>

text \<open>\<open>!!x\<close> for \<open>x : string | null\<close>: null and the empty string are falsy.\<close>

definition truthy :: "string option \<Rightarrow> bool" where
  "truthy a = (case a of None \<Rightarrow> False | Some s \<Rightarrow> s \<noteq> [])"

text \<open>\<open>Set.prototype.add\<close>, \<open>delete\<close> and \<open>new Set(iterable)\<close>.\<close>

definition Set_add :: "'a \<Rightarrow> 'a list \<Rightarrow> 'a list" where
  "Set_add x xs = (if x \<in> set xs then xs else xs @ [x])"

definition Set_delete :: "'a \<Rightarrow> 'a list \<Rightarrow> 'a list" where
  "Set_delete x xs = filter (\<lambda>y. y \<noteq> x) xs"

definition Set_of :: "'a list \<Rightarrow> 'a list" where
  "Set_of ys = fold Set_add ys []"

text \<open>
  \<open>String.prototype.trim\<close>, on code units below 256: tab, line feed, vertical tab,
  form feed, carriage return, space and no-break space are white space.
\<close>

definition js_whitespace :: "char \<Rightarrow> bool" where
  "js_whitespace c = (of_char c \<in> {9, 10, 11, 12, 13, 32, 160 :: nat})"

definition trim :: "string \<Rightarrow> string" where
  "trim s = rev (dropWhile js_whitespace (rev (dropWhile js_whitespace s)))"

definition startsWith :: "string \<Rightarrow> string \<Rightarrow> bool" where
  "startsWith s p = (take (length p) s = p)"

text \<open>\<open>s.lastIndexOf(c)\<close>: the last position of \<open>c\<close>, or \<open>-1\<close>.\<close>

fun lastIndexOf_from :: "nat \<Rightarrow> int \<Rightarrow> char \<Rightarrow> string \<Rightarrow> int" where
  "lastIndexOf_from i found c [] = found"
| "lastIndexOf_from i found c (x # xs) =
     lastIndexOf_from (Suc i) (if x = c then int i else found) c xs"

definition lastIndexOf :: "string \<Rightarrow> char \<Rightarrow> int" where
  "lastIndexOf s c = lastIndexOf_from 0 (- 1) c s"

text \<open>\<open>s.substring(0, e)\<close>: a negative end counts as 0, a large one as the length.\<close>

definition substring0 :: "string \<Rightarrow> int \<Rightarrow> string" where
  "substring0 s e = take (nat e) s"

text \<open>\<open>s.split(',')[1]\<close>: the text between the first and the second comma,
  \<open>undefined\<close> when there is no comma.\<close>

definition split_comma_1 :: "string \<Rightarrow> string option" where
  "split_comma_1 s =
     (case dropWhile (\<lambda>c. c \<noteq> CHR '','') s of
        [] \<Rightarrow> None
      | _ # rest \<Rightarrow> Some (takeWhile (\<lambda>c. c \<noteq> CHR '','') rest))"

section \<open>Project management (App.tsx)\<close>

text \<open>\<open>const activeProject = projects.find(p => p.id === activeProjectId)\<close>\<close>

definition activeProject :: "App \<Rightarrow> Project option" where
  "activeProject s = find (\<lambda>p. Some (p_id p) = activeProjectId s) (projects s)"

text \<open>
  The state setters the creation dialog calls directly: the name input's
  \<open>onChange\<close>, the three ratio buttons, the cancel button.
  \<open>handleCreateProjectClick\<close> is these three setters with a default name,
  \<open>'16:9'\<close> and \<open>true\<close>.
\<close>

definition setNewProjectName :: "string \<Rightarrow> App \<Rightarrow> App" where
  "setNewProjectName n s = s\<lparr>newProjectName := n\<rparr>"

definition setNewProjectRatio :: "AspectRatio \<Rightarrow> App \<Rightarrow> App" where
  "setNewProjectRatio r s = s\<lparr>newProjectRatio := r\<rparr>"

definition setIsCreatingProject :: "bool \<Rightarrow> App \<Rightarrow> App" where
  "setIsCreatingProject b s = s\<lparr>isCreatingProject := b\<rparr>"

text \<open>
  \<open>confirmCreateProject\<close>. The environment supplies \<open>crypto.randomUUID()\<close> and the
  two readings of \<open>Date.now()\<close>, in the order the object literal evaluates them.
\<close>

definition confirmCreateProject :: "string \<Rightarrow> int \<Rightarrow> int \<Rightarrow> App \<Rightarrow> App" where
  "confirmCreateProject uuid now1 now2 s =
     (if trim (newProjectName s) = [] then s
      else
        let newProject =
              \<lparr>p_id = uuid, p_name = newProjectName s, p_aspectRatio = newProjectRatio s,
               p_createdAt = now1, p_lastModified = now2,
               p_videos = [], p_galleryItems = []\<rparr>
        in s\<lparr>projects := newProject # projects s,
              activeProjectId := Some (p_id newProject),
              currentView := Timeline,
              isCreatingProject := False\<rparr>)"

text \<open>
  \<open>deleteProject\<close>; \<open>confirmed\<close> is the answer of the \<open>confirm\<close> dialog.
\<close>

definition deleteProject :: "bool \<Rightarrow> string \<Rightarrow> App \<Rightarrow> App" where
  "deleteProject confirmed projectId s =
     (if confirmed then
        let project = find (\<lambda>p. p_id p = projectId) (projects s) in
        s\<lparr>objectURLs :=
              (case project of
                 None \<Rightarrow> objectURLs s
               | Some p \<Rightarrow> objectURLs s - set (map v_url (p_videos p))),
           projects := filter (\<lambda>p. p_id p \<noteq> projectId) (projects s),
           activeProjectId :=
              (if activeProjectId s = Some projectId then None else activeProjectId s)\<rparr>
      else s)"

definition openProject :: "string \<Rightarrow> App \<Rightarrow> App" where
  "openProject projectId s =
     s\<lparr>activeProjectId := Some projectId, currentView := Timeline,
       selectedGalleryIds := [], activeProjectDuration := 0\<rparr>"

definition exitProject :: "App \<Rightarrow> App" where
  "exitProject s = s\<lparr>activeProjectId := None, activeProjectDuration := 0\<rparr>"

text \<open>The sidebar buttons: \<open>activeProjectId && setCurrentView(v)\<close>.\<close>

definition switchView :: "View \<Rightarrow> App \<Rightarrow> App" where
  "switchView v s = (if truthy (activeProjectId s) then s\<lparr>currentView := v\<rparr> else s)"

section \<open>Handlers of the active project's data (App.tsx)\<close>

text \<open>
  The argument of \<open>updateActiveProjectVideos\<close> is a new array or an updater function
  (\<open>typeof newVideosOrFn === 'function'\<close>).
\<close>

datatype SetVideosAction =
    NewVideos "VideoItem list"
  | UpdateFn "VideoItem list \<Rightarrow> VideoItem list"

definition updateActiveProjectVideos :: "int \<Rightarrow> SetVideosAction \<Rightarrow> App \<Rightarrow> App" where
  "updateActiveProjectVideos now newVideosOrFn s =
     (if \<not> truthy (activeProjectId s) then s
      else
        s\<lparr>projects :=
             map (\<lambda>proj.
                    if Some (p_id proj) \<noteq> activeProjectId s then proj
                    else
                      let updatedVideos =
                            (case newVideosOrFn of
                               UpdateFn f \<Rightarrow> f (p_videos proj)
                             | NewVideos vs \<Rightarrow> vs)
                      in proj\<lparr>p_videos := updatedVideos, p_lastModified := now\<rparr>)
                 (projects s)\<rparr>)"

text \<open>
  \<open>handleUpdateVideo\<close> merges a partial VideoItem into the matching one; the callers
  pass \<open>{ name }\<close> or \<open>{ crop }\<close>.
\<close>

record VideoUpdates =
  u_name :: "string option"
  u_crop :: "Crop option"

definition merge_updates :: "VideoItem \<Rightarrow> VideoUpdates \<Rightarrow> VideoItem" where
  "merge_updates v u =
     v\<lparr>v_name := (case u_name u of None \<Rightarrow> v_name v | Some n \<Rightarrow> n),
       v_crop := (case u_crop u of None \<Rightarrow> v_crop v | Some c \<Rightarrow> Some c)\<rparr>"

definition handleUpdateVideo :: "int \<Rightarrow> string \<Rightarrow> VideoUpdates \<Rightarrow> App \<Rightarrow> App" where
  "handleUpdateVideo now videoId updates s =
     updateActiveProjectVideos now
       (UpdateFn (map (\<lambda>v. if v_id v = videoId then merge_updates v updates else v))) s"

definition handleRenameVideo :: "int \<Rightarrow> string \<Rightarrow> string \<Rightarrow> App \<Rightarrow> App" where
  "handleRenameVideo now videoId newName s =
     handleUpdateVideo now videoId \<lparr>u_name = Some newName, u_crop = None\<rparr> s"

text \<open>
  \<open>handleFiles\<close>. The \<open>k\<close>-th accepted file receives \<open>uuids k\<close> from
  \<open>crypto.randomUUID()\<close> and \<open>urls k\<close> from \<open>URL.createObjectURL(file)\<close>, which
  also registers the URL with the browser.
\<close>

definition newVideos_of :: "(nat \<Rightarrow> string) \<Rightarrow> (nat \<Rightarrow> string) \<Rightarrow> File list \<Rightarrow> VideoItem list" where
  "newVideos_of uuids urls files =
     map (\<lambda>(k, file).
            \<lparr>v_id = uuids k, v_file = file, v_url = urls k,
             v_name = file_name file, v_crop = None\<rparr>)
         (enumerate 0 (filter (\<lambda>file. startsWith (file_type file) ''video/'') files))"

definition handleFiles ::
  "int \<Rightarrow> (nat \<Rightarrow> string) \<Rightarrow> (nat \<Rightarrow> string) \<Rightarrow> File list option \<Rightarrow> App \<Rightarrow> App" where
  "handleFiles now uuids urls files s =
     (case files of
        None \<Rightarrow> s
      | Some fs \<Rightarrow>
          if \<not> truthy (activeProjectId s) then s
          else
            let newVideos = newVideos_of uuids urls fs;
                s1 = s\<lparr>objectURLs := objectURLs s \<union> set (map v_url newVideos)\<rparr>;
                s2 = updateActiveProjectVideos now (UpdateFn (\<lambda>prev. prev @ newVideos)) s1
            in s2\<lparr>currentView := Timeline\<rparr>)"

subsection \<open>Gallery\<close>

definition addToGallery ::
  "string \<Rightarrow> int \<Rightarrow> int \<Rightarrow> string \<Rightarrow> GalleryType \<Rightarrow> string \<Rightarrow> App \<Rightarrow> App" where
  "addToGallery uuid now1 now2 src type videoName s =
     (if \<not> truthy (activeProjectId s) then s
      else
        let newItem =
              \<lparr>g_id = uuid, g_src = src, g_type = type, g_videoName = videoName,
               g_createdAt = now1\<rparr>
        in s\<lparr>projects :=
                map (\<lambda>proj.
                       if Some (p_id proj) \<noteq> activeProjectId s then proj
                       else proj\<lparr>p_galleryItems := newItem # p_galleryItems proj,
                                 p_lastModified := now2\<rparr>)
                    (projects s)\<rparr>)"

definition removeFromGallery :: "string \<Rightarrow> App \<Rightarrow> App" where
  "removeFromGallery ident s =
     (if \<not> truthy (activeProjectId s) then s
      else
        s\<lparr>projects :=
             map (\<lambda>proj.
                    if Some (p_id proj) \<noteq> activeProjectId s then proj
                    else proj\<lparr>p_galleryItems :=
                                filter (\<lambda>item. g_id item \<noteq> ident) (p_galleryItems proj)\<rparr>)
                 (projects s),
          selectedGalleryIds := Set_delete ident (selectedGalleryIds s)\<rparr>)"

subsection \<open>Batch selection\<close>

definition toggleSelection :: "string \<Rightarrow> App \<Rightarrow> App" where
  "toggleSelection ident s =
     s\<lparr>selectedGalleryIds :=
         (if ident \<in> set (selectedGalleryIds s)
          then Set_delete ident (selectedGalleryIds s)
          else Set_add ident (selectedGalleryIds s))\<rparr>"

definition toggleSelectAll :: "App \<Rightarrow> App" where
  "toggleSelectAll s =
     (case activeProject s of
        None \<Rightarrow> s
      | Some p \<Rightarrow>
          if length (selectedGalleryIds s) = length (p_galleryItems p)
          then s\<lparr>selectedGalleryIds := []\<rparr>
          else s\<lparr>selectedGalleryIds := Set_of (map g_id (p_galleryItems p))\<rparr>)"

definition deleteSelected :: "bool \<Rightarrow> App \<Rightarrow> App" where
  "deleteSelected confirmed s =
     (case activeProject s of
        None \<Rightarrow> s
      | Some _ \<Rightarrow>
          if confirmed then
            s\<lparr>projects :=
                 map (\<lambda>proj.
                        if Some (p_id proj) \<noteq> activeProjectId s then proj
                        else proj\<lparr>p_galleryItems :=
                                    filter (\<lambda>item. g_id item \<notin> set (selectedGalleryIds s))
                                           (p_galleryItems proj)\<rparr>)
                     (projects s),
              selectedGalleryIds := []\<rparr>
          else s)"

subsection \<open>Batch export\<close>

text \<open>
  The contract of the archive library for \<open>folder.file(name, data)\<close>: a folder
  holds one entry per name, and adding a name it already holds replaces that entry.
  The data of an entry is what \<open>item.src.split(',')[1]\<close> gave.
\<close>

type_synonym ZipFolder = "(string \<times> string option) list"

fun zip_file :: "string \<Rightarrow> string option \<Rightarrow> ZipFolder \<Rightarrow> ZipFolder" where
  "zip_file name data [] = [(name, data)]"
| "zip_file name data ((n, d) # es) =
     (if n = name then (name, data) # es else (n, d) # zip_file name data es)"

fun type_str :: "GalleryType \<Rightarrow> string" where
  "type_str Inicio = ''inicio''"
| "type_str Final = ''final''"
| "type_str Manual = ''manual''"

text \<open>\<open>videoName.substring(0, videoName.lastIndexOf('.')) || videoName\<close>\<close>

definition nameOnly_of :: "string \<Rightarrow> string" where
  "nameOnly_of videoName =
     (let n = substring0 videoName (lastIndexOf videoName CHR ''.'')
      in if n = [] then videoName else n)"

definition fileName_of :: "GalleryItem \<Rightarrow> string" where
  "fileName_of item =
     nameOnly_of (g_videoName item) @ ''_'' @ type_str (g_type item) @ ''_'' @
     take 4 (g_id item) @ ''.png''"

text \<open>\<open>name.replace(/[^a-z0-9]/gi, '_').toLowerCase()\<close>, on ASCII letters.\<close>

definition folder_char :: "char \<Rightarrow> char" where
  "folder_char c =
     (let n = (of_char c :: nat) in
      if (97 \<le> n \<and> n \<le> 122) \<or> (48 \<le> n \<and> n \<le> 57) then c
      else if 65 \<le> n \<and> n \<le> 90 then char_of (n + 32)
      else CHR ''_'')"

definition folderName_of :: "string \<Rightarrow> string" where
  "folderName_of name = map folder_char name"

text \<open>The body of \<open>selectedGalleryIds.forEach\<close>.\<close>

definition zip_selected :: "GalleryItem list \<Rightarrow> string \<Rightarrow> ZipFolder \<Rightarrow> ZipFolder" where
  "zip_selected items ident folder =
     (case find (\<lambda>i. g_id i = ident) items of
        None \<Rightarrow> folder
      | Some item \<Rightarrow> zip_file (fileName_of item) (split_comma_1 (g_src item)) folder)"

text \<open>
  \<open>downloadBatchZip\<close> up to the call of the encoder: the folder's name and its
  entries, or \<open>None\<close> when the handler returns at once.
\<close>

definition downloadBatchZip :: "App \<Rightarrow> (string \<times> ZipFolder) option" where
  "downloadBatchZip s =
     (if length (selectedGalleryIds s) = 0 then None
      else
        case activeProject s of
          None \<Rightarrow> None
        | Some p \<Rightarrow>
            Some (folderName_of (p_name p) @ ''_frames'',
                  fold (zip_selected (p_galleryItems p)) (selectedGalleryIds s) []))"

section \<open>Timeline (TimelineEditor.tsx)\<close>

text \<open>
  A JavaScript array read out of range gives \<open>undefined\<close>, and written out of range
  grows, leaving holes. \<open>None\<close> is \<open>undefined\<close>.
\<close>

definition js_get :: "'a option list \<Rightarrow> nat \<Rightarrow> 'a option" where
  "js_get xs i = (if i < length xs then xs ! i else None)"

definition js_set :: "'a option list \<Rightarrow> nat \<Rightarrow> 'a option \<Rightarrow> 'a option list" where
  "js_set xs i v =
     (if i < length xs then xs[i := v]
      else xs @ replicate (i - length xs) None @ [v])"

datatype Direction = Left | Right

text \<open>
  \<open>moveVideo\<close> up to \<open>setVideos(newVideos)\<close>: the array it hands over. The
  destructuring assignment reads both elements first, then writes them in order.
\<close>

definition moveVideo :: "nat \<Rightarrow> Direction \<Rightarrow> VideoItem list \<Rightarrow> VideoItem option list" where
  "moveVideo index direction videos =
     (let newVideos = map Some videos in
      if direction = Left \<and> index > 0 then
        let a = js_get newVideos index; b = js_get newVideos (index - 1)
        in js_set (js_set newVideos (index - 1) a) index b
      else if direction = Right \<and> int index < int (length videos) - 1 then
        let a = js_get newVideos index; b = js_get newVideos (index + 1)
        in js_set (js_set newVideos (index + 1) a) index b
      else newVideos)"

text \<open>
  A sequence of \<open>moveVideo\<close> calls, each on the array the previous one stored.
  The result is \<open>None\<close> once an array holds \<open>undefined\<close>: the next render
  reads \<open>video.id\<close> of it and throws.
\<close>

fun reorder_calls :: "(nat \<times> Direction) list \<Rightarrow> VideoItem list \<Rightarrow> VideoItem list option" where
  "reorder_calls [] videos = Some videos"
| "reorder_calls ((index, direction) # cs) videos =
     (case those (moveVideo index direction videos) of
        None \<Rightarrow> None
      | Some videos' \<Rightarrow> reorder_calls cs videos')"

text \<open>The card's \<open>onDelete\<close>: \<open>setVideos(v => v.filter(i => i.id !== video.id))\<close>.\<close>

definition onDelete :: "int \<Rightarrow> string \<Rightarrow> App \<Rightarrow> App" where
  "onDelete now videoId s =
     updateActiveProjectVideos now (UpdateFn (filter (\<lambda>i. v_id i \<noteq> videoId))) s"

section \<open>Frame capture (FrameProcessor.tsx, TimelineEditor.tsx)\<close>

text \<open>
  A video element: its duration, its position, and the log of the positions at which a
  frame was drawn to the canvas. Times are JavaScript numbers in the source and exact
  rationals here; \<open>frame t\<close> is the picture the decoder shows at position \<open>t\<close>.
\<close>

record VideoElement =
  ve_duration :: rat
  ve_currentTime :: rat
  ve_captures :: "rat list"

record FrameProcessor =
  fp_firstFrame :: "string option"
  fp_lastFrame :: "string option"
  fp_duration :: rat
  fp_isProcessing :: bool

text \<open>
  \<open>captureAtTime\<close> (and \<open>extract\<close> of \<open>generateThumbs\<close>, which has the same
  body): seek, wait for \<open>seeked\<close>, draw, return the data URL. The canvas is rendered
  with the component, so its ref is attached whenever the video's is.
\<close>

definition captureAtTime ::
  "(rat \<Rightarrow> string) \<Rightarrow> rat \<Rightarrow> VideoElement \<Rightarrow> string \<times> VideoElement" where
  "captureAtTime frame time video =
     (frame time,
      video\<lparr>ve_currentTime := time, ve_captures := ve_captures video @ [time]\<rparr>)"

definition processAutomaticFrames ::
  "(rat \<Rightarrow> string) \<Rightarrow> VideoElement option \<Rightarrow> FrameProcessor \<Rightarrow>
     FrameProcessor \<times> VideoElement option" where
  "processAutomaticFrames frame videoRef st =
     (case videoRef of
        None \<Rightarrow> (st, None)
      | Some video \<Rightarrow>
          let st1 = st\<lparr>fp_duration := ve_duration video\<rparr>;
              (first, video1) = captureAtTime frame 0 video;
              st2 = st1\<lparr>fp_firstFrame := Some first\<rparr>;
              (final, video2) =
                 captureAtTime frame (max 0 (ve_duration video1 - 1 / 10)) video1;
              st3 = st2\<lparr>fp_lastFrame := Some final\<rparr>;
              video3 = video2\<lparr>ve_currentTime := 0\<rparr>
          in (st3\<lparr>fp_isProcessing := False\<rparr>, Some video3))"

record VideoCard =
  vc_startFrameImg :: "string option"
  vc_endFrameImg :: "string option"
  vc_loadingThumbs :: bool

text \<open>\<open>generateThumbs\<close> of a mounted card, once the metadata of \<open>tempVideo\<close> is loaded.\<close>

definition generateThumbs ::
  "(rat \<Rightarrow> string) \<Rightarrow> VideoElement \<Rightarrow> VideoCard \<Rightarrow> VideoCard \<times> VideoElement" where
  "generateThumbs frame tempVideo vc =
     (let card1 = vc\<lparr>vc_loadingThumbs := True\<rparr>;
          (img1, tempVideo1) = captureAtTime frame (1 / 10) tempVideo;
          card2 = card1\<lparr>vc_startFrameImg := Some img1\<rparr>;
          (img2, tempVideo2) =
             captureAtTime frame (max 0 (ve_duration tempVideo1 - 1 / 10)) tempVideo1;
          card3 = card2\<lparr>vc_endFrameImg := Some img2\<rparr>
      in (card3\<lparr>vc_loadingThumbs := False\<rparr>, tempVideo2))"

section \<open>The states the user interface can reach\<close>

text \<open>
  One rule per handler of \<open>App\<close>. \<open>openProject\<close> is bound to the card of a project
  of the store, so its argument is the id of one; the other handlers take any argument.
\<close>

inductive reachable :: "App \<Rightarrow> bool" where
  r_init: "reachable initialApp"
| r_name: "reachable s \<Longrightarrow> reachable (setNewProjectName n s)"
| r_ratio: "reachable s \<Longrightarrow> reachable (setNewProjectRatio r s)"
| r_creating: "reachable s \<Longrightarrow> reachable (setIsCreatingProject b s)"
| r_create: "reachable s \<Longrightarrow> reachable (confirmCreateProject uuid now1 now2 s)"
| r_delete: "reachable s \<Longrightarrow> reachable (deleteProject confirmed projectId s)"
| r_open: "reachable s \<Longrightarrow> projectId \<in> set (map p_id (projects s)) \<Longrightarrow>
            reachable (openProject projectId s)"
| r_exit: "reachable s \<Longrightarrow> reachable (exitProject s)"
| r_view: "reachable s \<Longrightarrow> reachable (switchView v s)"
| r_videos: "reachable s \<Longrightarrow> reachable (updateActiveProjectVideos now act s)"
| r_files: "reachable s \<Longrightarrow> reachable (handleFiles now uuids urls files s)"
| r_add: "reachable s \<Longrightarrow> reachable (addToGallery uuid now1 now2 src type videoName s)"
| r_remove: "reachable s \<Longrightarrow> reachable (removeFromGallery ident s)"
| r_toggle: "reachable s \<Longrightarrow> reachable (toggleSelection ident s)"
| r_toggle_all: "reachable s \<Longrightarrow> reachable (toggleSelectAll s)"
| r_delete_selected: "reachable s \<Longrightarrow> reachable (deleteSelected confirmed s)"

section \<open>Properties stated about the model\<close>

text \<open>The active id is null or the id of a project of the store.\<close>

definition active_in_store :: "App \<Rightarrow> bool" where
  "active_in_store s \<longleftrightarrow>
     activeProjectId s = None \<or> activeProjectId s \<in> Some ` set (map p_id (projects s))"

text \<open>
  What a handler leaves alone: the store keeps its length, every project whose id is
  not the active id stays as it is, and with no active id the whole state stays as it is.
\<close>

definition others_unchanged :: "App \<Rightarrow> App \<Rightarrow> bool" where
  "others_unchanged s s' \<longleftrightarrow>
     length (projects s') = length (projects s) \<and>
     (\<forall>i < length (projects s).
        Some (p_id (projects s ! i)) \<noteq> activeProjectId s \<longrightarrow>
        projects s' ! i = projects s ! i) \<and>
     (activeProjectId s = None \<longrightarrow> s' = s)"

text \<open>The file name \<open>downloadBatchZip\<close> gives to a selected id, if the gallery has it.\<close>

definition selected_fileName :: "GalleryItem list \<Rightarrow> string \<Rightarrow> string option" where
  "selected_fileName items ident = map_option fileName_of (find (\<lambda>i. g_id i = ident) items)"

text \<open>No project was modified before it was created.\<close>

definition stamps_ok :: "App \<Rightarrow> bool" where
  "stamps_ok s \<longleftrightarrow> list_all (\<lambda>p. p_createdAt p \<le> p_lastModified p) (projects s)"

text \<open>Swapping two positions of a list.\<close>

definition swap :: "nat \<Rightarrow> nat \<Rightarrow> 'a list \<Rightarrow> 'a list" where
  "swap i j xs = xs[i := xs ! j, j := xs ! i]"

section \<open>Example sessions\<close>

text \<open>
  A session built from the handlers: create project A, leave it, create project B,
  import three files of which the second is an image, save two frames to the gallery,
  select both.
\<close>

definition ex_A :: App where
  "ex_A = confirmCreateProject ''A'' 1000 1000 (setNewProjectName ''Alpha'' initialApp)"

definition ex_AB :: App where
  "ex_AB = confirmCreateProject ''B'' 2000 2000 (setNewProjectName ''Beta'' (exitProject ex_A))"

definition ex_files :: "File list" where
  "ex_files =
     [\<lparr>file_type = ''video/mp4'', file_name = ''one.mp4''\<rparr>,
      \<lparr>file_type = ''image/png'', file_name = ''two.png''\<rparr>,
      \<lparr>file_type = ''video/webm'', file_name = ''three.webm''\<rparr>]"

definition ex_uuids :: "nat \<Rightarrow> string" where
  "ex_uuids k = CHR ''v'' # replicate k CHR ''i''"

definition ex_urls :: "nat \<Rightarrow> string" where
  "ex_urls k = ''blob:'' @ replicate k CHR ''u''"

definition ex_v1 :: VideoItem where
  "ex_v1 = \<lparr>v_id = ''v'', v_file = \<lparr>file_type = ''video/mp4'', file_name = ''one.mp4''\<rparr>,
       v_url = ''blob:'', v_name = ''one.mp4'', v_crop = None\<rparr>"

definition ex_v2 :: VideoItem where
  "ex_v2 = \<lparr>v_id = ''vi'', v_file = \<lparr>file_type = ''video/webm'', file_name = ''three.webm''\<rparr>,
       v_url = ''blob:u'', v_name = ''three.webm'', v_crop = None\<rparr>"

definition ex_videos :: App where
  "ex_videos = handleFiles 3000 ex_uuids ex_urls (Some ex_files) ex_AB"

definition ex_item1 :: GalleryItem where
  "ex_item1 = \<lparr>g_id = ''3f2a1b7c'', g_src = ''data:image/png;base64,AAAA'',
              g_type = Manual, g_videoName = ''one.mp4'', g_createdAt = 4000\<rparr>"

definition ex_item2 :: GalleryItem where
  "ex_item2 = \<lparr>g_id = ''3f2a9d4e'', g_src = ''data:image/png;base64,BBBB'',
              g_type = Manual, g_videoName = ''one.mp4'', g_createdAt = 4100\<rparr>"

definition ex_gallery :: App where
  "ex_gallery =
     addToGallery (g_id ex_item2) 4100 4100 (g_src ex_item2) Manual ''one.mp4''
       (addToGallery (g_id ex_item1) 4000 4000 (g_src ex_item1) Manual ''one.mp4'' ex_videos)"

definition ex_selected :: App where
  "ex_selected = toggleSelection (g_id ex_item2) (toggleSelection (g_id ex_item1) ex_gallery)"

text \<open>
  A third frame, saved from the other clip, and a selection of the first and the third.
\<close>

definition ex_item3 :: GalleryItem where
  "ex_item3 = \<lparr>g_id = ''77aa0000'', g_src = ''data:image/png;base64,CCCC'',
              g_type = Final, g_videoName = ''three.webm'', g_createdAt = 4200\<rparr>"

definition ex_export :: App where
  "ex_export =
     toggleSelection (g_id ex_item3) (toggleSelection (g_id ex_item1)
       (addToGallery (g_id ex_item3) 4200 4200 (g_src ex_item3) Final ''three.webm''
          ex_gallery))"

text \<open>A clip of ten seconds in a fresh \<open>FrameProcessor\<close> and a fresh card.\<close>

definition ex_video10 :: VideoElement where
  "ex_video10 = \<lparr>ve_duration = 10, ve_currentTime = 0, ve_captures = []\<rparr>"

definition ex_frame :: "rat \<Rightarrow> string" where
  "ex_frame t = (if t < 5 then ''data:image/png;base64,HEAD'' else ''data:image/png;base64,TAIL'')"

definition ex_processor :: FrameProcessor where
  "ex_processor =
     \<lparr>fp_firstFrame = None, fp_lastFrame = None, fp_duration = 0, fp_isProcessing = True\<rparr>"

definition ex_card :: VideoCard where
  "ex_card = \<lparr>vc_startFrameImg = None, vc_endFrameImg = None, vc_loadingThumbs = True\<rparr>"

section \<open>Evaluating the example sessions\<close>

lemma trim_examples: "trim ''Alpha'' = ''Alpha''" "trim ''Beta'' = ''Beta''"
  by (simp_all add: trim_def js_whitespace_def)

lemma ex_A_eval:
  "ex_A = \<lparr>projects = [\<lparr>p_id = ''A'', p_name = ''Alpha'', p_aspectRatio = R16_9,
               p_createdAt = 1000, p_lastModified = 1000, p_videos = [], p_galleryItems = []\<rparr>],
           activeProjectId = Some ''A'', activeProjectDuration = 0,
           isCreatingProject = False, newProjectName = ''Alpha'', newProjectRatio = R16_9,
           currentView = Timeline, selectedGalleryIds = [], objectURLs = {}\<rparr>"
  by (simp add: ex_A_def confirmCreateProject_def setNewProjectName_def initialApp_def
      trim_examples)

lemma ex_AB_eval:
  "ex_AB = \<lparr>projects =
             [\<lparr>p_id = ''B'', p_name = ''Beta'', p_aspectRatio = R16_9,
               p_createdAt = 2000, p_lastModified = 2000, p_videos = [], p_galleryItems = []\<rparr>,
              \<lparr>p_id = ''A'', p_name = ''Alpha'', p_aspectRatio = R16_9,
               p_createdAt = 1000, p_lastModified = 1000, p_videos = [], p_galleryItems = []\<rparr>],
           activeProjectId = Some ''B'', activeProjectDuration = 0,
           isCreatingProject = False, newProjectName = ''Beta'', newProjectRatio = R16_9,
           currentView = Timeline, selectedGalleryIds = [], objectURLs = {}\<rparr>"
  by (simp add: ex_AB_def ex_A_eval confirmCreateProject_def setNewProjectName_def
      exitProject_def trim_examples)

lemma ex_newVideos_eval:
  "newVideos_of ex_uuids ex_urls ex_files =
     [\<lparr>v_id = ''v'', v_file = \<lparr>file_type = ''video/mp4'', file_name = ''one.mp4''\<rparr>,
       v_url = ''blob:'', v_name = ''one.mp4'', v_crop = None\<rparr>,
      \<lparr>v_id = ''vi'', v_file = \<lparr>file_type = ''video/webm'', file_name = ''three.webm''\<rparr>,
       v_url = ''blob:u'', v_name = ''three.webm'', v_crop = None\<rparr>]"
  by (simp add: newVideos_of_def ex_files_def ex_uuids_def ex_urls_def startsWith_def)

lemma ex_newVideos_items: "newVideos_of ex_uuids ex_urls ex_files = [ex_v1, ex_v2]"
  by (simp add: ex_newVideos_eval ex_v1_def ex_v2_def)

lemma ex_videos_eval:
  "ex_videos = \<lparr>projects =
             [\<lparr>p_id = ''B'', p_name = ''Beta'', p_aspectRatio = R16_9,
               p_createdAt = 2000, p_lastModified = 3000,
               p_videos = newVideos_of ex_uuids ex_urls ex_files, p_galleryItems = []\<rparr>,
              \<lparr>p_id = ''A'', p_name = ''Alpha'', p_aspectRatio = R16_9,
               p_createdAt = 1000, p_lastModified = 1000, p_videos = [], p_galleryItems = []\<rparr>],
           activeProjectId = Some ''B'', activeProjectDuration = 0,
           isCreatingProject = False, newProjectName = ''Beta'', newProjectRatio = R16_9,
           currentView = Timeline, selectedGalleryIds = [],
           objectURLs = {''blob:'', ''blob:u''}\<rparr>"
  by (simp add: ex_videos_def ex_AB_eval handleFiles_def updateActiveProjectVideos_def
      truthy_def Let_def ex_newVideos_eval)

lemma ex_gallery_eval:
  "ex_gallery = \<lparr>projects =
             [\<lparr>p_id = ''B'', p_name = ''Beta'', p_aspectRatio = R16_9,
               p_createdAt = 2000, p_lastModified = 4100,
               p_videos = newVideos_of ex_uuids ex_urls ex_files,
               p_galleryItems = [ex_item2, ex_item1]\<rparr>,
              \<lparr>p_id = ''A'', p_name = ''Alpha'', p_aspectRatio = R16_9,
               p_createdAt = 1000, p_lastModified = 1000, p_videos = [], p_galleryItems = []\<rparr>],
           activeProjectId = Some ''B'', activeProjectDuration = 0,
           isCreatingProject = False, newProjectName = ''Beta'', newProjectRatio = R16_9,
           currentView = Timeline, selectedGalleryIds = [],
           objectURLs = {''blob:'', ''blob:u''}\<rparr>"
  by (simp add: ex_gallery_def ex_videos_eval addToGallery_def truthy_def Let_def
      ex_item1_def ex_item2_def)

lemma ex_selected_eval:
  "ex_selected = ex_gallery\<lparr>selectedGalleryIds := [''3f2a1b7c'', ''3f2a9d4e'']\<rparr>"
  by (simp add: ex_selected_def ex_gallery_eval toggleSelection_def Set_add_def
      ex_item1_def ex_item2_def)

section \<open>Auxiliary facts\<close>

lemma find_map_keep:
  assumes "\<And>x. P (f x) = P x"
  shows "find P (map f xs) = map_option f (find P xs)"
  using assms by (induction xs) auto

lemma find_filter_keep:
  assumes "\<And>x. P x \<Longrightarrow> Q x"
  shows "find P (filter Q xs) = find P xs"
  using assms by (induction xs) auto

lemma updateActiveProjectVideos_truthy:
  "truthy (activeProjectId s) \<Longrightarrow>
   updateActiveProjectVideos now act s =
     s\<lparr>projects :=
         map (\<lambda>proj. if Some (p_id proj) \<noteq> activeProjectId s then proj
                      else proj\<lparr>p_videos := (case act of UpdateFn f \<Rightarrow> f (p_videos proj) | NewVideos vs \<Rightarrow> vs),
                                p_lastModified := now\<rparr>)
             (projects s)\<rparr>"
  unfolding updateActiveProjectVideos_def Let_def by simp

lemma v_file_newVideos:
  "map v_file (map (\<lambda>(k, file). \<lparr>v_id = a k, v_file = file, v_url = b k,
       v_name = file_name file, v_crop = None\<rparr>) (enumerate n fs)) = fs"
  by (induction fs arbitrary: n) simp_all

lemma others_unchanged_refl: "others_unchanged s s"
  by (simp add: others_unchanged_def)

subsection \<open>The active project of the examples\<close>

lemma activeProject_ex_videos:
  "activeProject ex_videos =
     Some \<lparr>p_id = ''B'', p_name = ''Beta'', p_aspectRatio = R16_9,
               p_createdAt = 2000, p_lastModified = 3000,
               p_videos = newVideos_of ex_uuids ex_urls ex_files, p_galleryItems = []\<rparr>"
  by (simp add: activeProject_def ex_videos_eval)

lemma activeProject_ex_AB:
  "activeProject ex_AB =
     Some \<lparr>p_id = ''B'', p_name = ''Beta'', p_aspectRatio = R16_9,
               p_createdAt = 2000, p_lastModified = 2000, p_videos = [], p_galleryItems = []\<rparr>"
  by (simp add: activeProject_def ex_AB_eval)

lemma activeProject_ex_gallery:
  "activeProject ex_gallery =
     Some \<lparr>p_id = ''B'', p_name = ''Beta'', p_aspectRatio = R16_9,
               p_createdAt = 2000, p_lastModified = 4100,
               p_videos = newVideos_of ex_uuids ex_urls ex_files,
               p_galleryItems = [ex_item2, ex_item1]\<rparr>"
  by (simp add: activeProject_def ex_gallery_eval)

section \<open>Frame of the per-project mutations\<close>

text \<open>
  C10. Every per-project mutation (updating the videos, adding files, adding to the
  gallery, removing from the gallery) changes at most the projects whose id is the
  active id: every other project of the store stays exactly as it was, in its place.
  With no active project each of them leaves the whole state as it is.
\<close>

theorem per_project_mutations_frame:
  "others_unchanged s (updateActiveProjectVideos now act s) \<and>
   others_unchanged s (handleFiles now uuids urls files s) \<and>
   others_unchanged s (addToGallery uuid now1 now2 src type videoName s) \<and>
   others_unchanged s (removeFromGallery ident s)"
proof (cases "truthy (activeProjectId s)")
  case False
  then show ?thesis
    by (simp add: updateActiveProjectVideos_def handleFiles_def addToGallery_def
        removeFromGallery_def others_unchanged_refl split: option.split)
next
  case True
  then have a: "activeProjectId s \<noteq> None"
    by (auto simp: truthy_def split: option.splits)
  have 1: "others_unchanged s (updateActiveProjectVideos now act s)"
    by (simp add: others_unchanged_def updateActiveProjectVideos_def True a)
  have 2: "others_unchanged s (handleFiles now uuids urls files s)"
    by (cases files)
      (simp_all add: others_unchanged_def handleFiles_def updateActiveProjectVideos_def
        True a Let_def)
  have 3: "others_unchanged s (addToGallery uuid now1 now2 src type videoName s)"
    by (simp add: others_unchanged_def addToGallery_def True a Let_def)
  have 4: "others_unchanged s (removeFromGallery ident s)"
    by (simp add: others_unchanged_def removeFromGallery_def True a)
  from 1 2 3 4 show ?thesis by simp
qed

theorem per_project_mutations_frame_witness:
  "projects (addToGallery ''77aa0000'' 5000 5000 ''data:,CCCC'' Inicio ''one.mp4'' ex_videos) ! 1
     = projects ex_videos ! 1 \<and>
   projects (removeFromGallery ''3f2a1b7c'' ex_gallery) ! 1 = projects ex_gallery ! 1 \<and>
   handleFiles 6000 ex_uuids ex_urls (Some ex_files) (exitProject ex_AB) = exitProject ex_AB"
proof -
  have 1: "(1::nat) < length (projects ex_videos)"
      "Some (p_id (projects ex_videos ! 1)) \<noteq> activeProjectId ex_videos"
    by (simp_all add: ex_videos_eval)
  have 2: "(1::nat) < length (projects ex_gallery)"
      "Some (p_id (projects ex_gallery ! 1)) \<noteq> activeProjectId ex_gallery"
    by (simp_all add: ex_gallery_eval)
  have 3: "activeProjectId (exitProject ex_AB) = None"
    by (simp add: exitProject_def)
  from per_project_mutations_frame
    [where s = ex_videos and uuid = "''77aa0000''" and ?now1.0 = 5000 and ?now2.0 = 5000
       and src = "''data:,CCCC''" and type = Inicio and videoName = "''one.mp4''"]
  have a: "others_unchanged ex_videos
      (addToGallery ''77aa0000'' 5000 5000 ''data:,CCCC'' Inicio ''one.mp4'' ex_videos)"
    by simp
  from per_project_mutations_frame
    [where s = ex_gallery and ident = "''3f2a1b7c''"]
  have b: "others_unchanged ex_gallery (removeFromGallery ''3f2a1b7c'' ex_gallery)"
    by simp
  from per_project_mutations_frame
    [where s = "exitProject ex_AB" and now = 6000 and uuids = ex_uuids and urls = ex_urls
       and files = "Some ex_files"]
  have c: "others_unchanged (exitProject ex_AB)
      (handleFiles 6000 ex_uuids ex_urls (Some ex_files) (exitProject ex_AB))"
    by simp
  from a 1 b 2 c 3 show ?thesis
    unfolding others_unchanged_def by blast
qed

section \<open>Removing from the gallery\<close>

text \<open>
  C9. With a project active, \<open>removeFromGallery ident\<close> leaves in the active
  project's gallery exactly the items whose id is not \<open>ident\<close>, and takes
  \<open>ident\<close> out of the batch selection. It is idempotent: a second call with the
  same id returns the state of the first.
\<close>

theorem removeFromGallery_idempotent:
  "(truthy (activeProjectId s) \<longrightarrow>
      (\<forall>p. activeProject s = Some p \<longrightarrow>
         (\<exists>p'. activeProject (removeFromGallery ident s) = Some p' \<and>
               p_galleryItems p' = filter (\<lambda>item. g_id item \<noteq> ident) (p_galleryItems p) \<and>
               ident \<notin> set (map g_id (p_galleryItems p')))) \<and>
      set (selectedGalleryIds (removeFromGallery ident s)) = set (selectedGalleryIds s) - {ident}) \<and>
   removeFromGallery ident (removeFromGallery ident s) = removeFromGallery ident s"
proof -
  let ?f = "\<lambda>proj. if Some (p_id proj) \<noteq> activeProjectId s then proj
                    else proj\<lparr>p_galleryItems :=
                                filter (\<lambda>item. g_id item \<noteq> ident) (p_galleryItems proj)\<rparr>"
  have idem: "removeFromGallery ident (removeFromGallery ident s) = removeFromGallery ident s"
    by (simp add: removeFromGallery_def Set_delete_def)
  {
    assume t: "truthy (activeProjectId s)"
    have ap: "activeProject (removeFromGallery ident s) = map_option ?f (activeProject s)"
      unfolding activeProject_def
      by (simp add: removeFromGallery_def t find_map_keep)
    have sel: "set (selectedGalleryIds (removeFromGallery ident s)) = set (selectedGalleryIds s) - {ident}"
      by (auto simp: removeFromGallery_def t Set_delete_def)
    have "\<forall>p. activeProject s = Some p \<longrightarrow>
         (\<exists>p'. activeProject (removeFromGallery ident s) = Some p' \<and>
               p_galleryItems p' = filter (\<lambda>item. g_id item \<noteq> ident) (p_galleryItems p) \<and>
               ident \<notin> set (map g_id (p_galleryItems p')))"
    proof (intro allI impI)
      fix p assume p: "activeProject s = Some p"
      then have "Some (p_id p) = activeProjectId s"
        by (auto simp: activeProject_def find_Some_iff)
      then show "\<exists>p'. activeProject (removeFromGallery ident s) = Some p' \<and>
               p_galleryItems p' = filter (\<lambda>item. g_id item \<noteq> ident) (p_galleryItems p) \<and>
               ident \<notin> set (map g_id (p_galleryItems p'))"
        by (auto simp: ap p)
    qed
    note this sel
  }
  with idem show ?thesis by blast
qed

theorem removeFromGallery_idempotent_witness:
  "(\<exists>p'. activeProject (removeFromGallery ''3f2a9d4e'' ex_selected) = Some p' \<and>
         p_galleryItems p' = [ex_item1]) \<and>
   set (selectedGalleryIds (removeFromGallery ''3f2a9d4e'' ex_selected)) = {''3f2a1b7c''} \<and>
   removeFromGallery ''3f2a9d4e'' (removeFromGallery ''3f2a9d4e'' ex_selected) =
     removeFromGallery ''3f2a9d4e'' ex_selected"
proof -
  have t: "truthy (activeProjectId ex_selected)"
    by (simp add: ex_selected_eval ex_gallery_eval truthy_def)
  have ap: "activeProject ex_selected = Some (the (activeProject ex_gallery))"
    by (simp add: activeProject_def ex_selected_eval ex_gallery_eval)
  have g: "filter (\<lambda>item. g_id item \<noteq> ''3f2a9d4e'') (p_galleryItems (the (activeProject ex_gallery)))
      = [ex_item1]"
    by (simp add: activeProject_ex_gallery ex_item1_def ex_item2_def)
  have sel: "set (selectedGalleryIds ex_selected) - {''3f2a9d4e''} = {''3f2a1b7c''}"
    by (auto simp: ex_selected_eval)
  from removeFromGallery_idempotent [of ex_selected "''3f2a9d4e''"] t ap g sel
  show ?thesis by auto
qed

section \<open>Importing files\<close>

text \<open>
  C5. With a project active, \<open>handleFiles\<close> appends to the end of its videos one
  item per input file whose type starts with \<open>video/\<close>, in the order of the input,
  and drops the other files. Of three files of which the second is no video, the two
  others are appended in their order and the list grows by two.
\<close>

theorem handleFiles_appends_videos:
  assumes "truthy (activeProjectId s)" and "activeProject s = Some p"
  shows "\<exists>p'. activeProject (handleFiles now uuids urls (Some files) s) = Some p' \<and>
           p_videos p' = p_videos p @ newVideos_of uuids urls files \<and>
           map v_file (newVideos_of uuids urls files) =
             filter (\<lambda>file. startsWith (file_type file) ''video/'') files \<and>
           (\<forall>f1 f2 f3. files = [f1, f2, f3] \<and> startsWith (file_type f1) ''video/'' \<and>
               \<not> startsWith (file_type f2) ''video/'' \<and> startsWith (file_type f3) ''video/'' \<longrightarrow>
               length (p_videos p') = length (p_videos p) + 2 \<and>
               map v_file (drop (length (p_videos p)) (p_videos p')) = [f1, f3])"
proof -
  let ?nv = "newVideos_of uuids urls files"
  let ?f = "\<lambda>proj. if Some (p_id proj) \<noteq> activeProjectId s then proj
                    else proj\<lparr>p_videos := p_videos proj @ ?nv, p_lastModified := now\<rparr>"
  have hf: "projects (handleFiles now uuids urls (Some files) s) = map ?f (projects s)"
       "activeProjectId (handleFiles now uuids urls (Some files) s) = activeProjectId s"
    by (simp_all add: handleFiles_def assms(1) Let_def updateActiveProjectVideos_truthy)
  have ap: "activeProject (handleFiles now uuids urls (Some files) s) = map_option ?f (activeProject s)"
    unfolding activeProject_def hf by (rule find_map_keep) simp
  have pid: "Some (p_id p) = activeProjectId s"
    using assms(2) by (auto simp: activeProject_def find_Some_iff)
  have files: "map v_file ?nv = filter (\<lambda>file. startsWith (file_type file) ''video/'') files"
    unfolding newVideos_of_def by (rule v_file_newVideos)
  have p': "activeProject (handleFiles now uuids urls (Some files) s) =
      Some (p\<lparr>p_videos := p_videos p @ ?nv, p_lastModified := now\<rparr>)"
    by (simp add: ap assms(2) pid)
  have len: "length ?nv = length (filter (\<lambda>file. startsWith (file_type file) ''video/'') files)"
    using arg_cong [OF files, of length] by simp
  show ?thesis
  proof (intro exI conjI allI impI)
    show "activeProject (handleFiles now uuids urls (Some files) s) =
      Some (p\<lparr>p_videos := p_videos p @ ?nv, p_lastModified := now\<rparr>)" by (rule p')
    show "p_videos (p\<lparr>p_videos := p_videos p @ ?nv, p_lastModified := now\<rparr>) = p_videos p @ ?nv"
      by simp
    show "map v_file ?nv = filter (\<lambda>file. startsWith (file_type file) ''video/'') files"
      by (rule files)
  next
    fix f1 f2 f3
    assume h: "files = [f1, f2, f3] \<and> startsWith (file_type f1) ''video/'' \<and>
               \<not> startsWith (file_type f2) ''video/'' \<and> startsWith (file_type f3) ''video/''"
    then have acc: "filter (\<lambda>file. startsWith (file_type file) ''video/'') files = [f1, f3]"
      by simp
    show "length (p_videos (p\<lparr>p_videos := p_videos p @ ?nv, p_lastModified := now\<rparr>)) =
        length (p_videos p) + 2"
      using len acc by simp
    show "map v_file (drop (length (p_videos p))
        (p_videos (p\<lparr>p_videos := p_videos p @ ?nv, p_lastModified := now\<rparr>))) = [f1, f3]"
      using files acc by simp
  qed
qed

theorem handleFiles_appends_videos_witness:
  "\<exists>p'. activeProject (handleFiles 3000 ex_uuids ex_urls (Some ex_files) ex_AB) = Some p' \<and>
      length (p_videos p') = 2 \<and>
      map v_name (p_videos p') = [''one.mp4'', ''three.webm'']"
proof -
  have t: "truthy (activeProjectId ex_AB)"
    by (simp add: ex_AB_eval truthy_def)
  from handleFiles_appends_videos [OF t activeProject_ex_AB, of 3000 ex_uuids ex_urls ex_files]
  obtain p' where
    "activeProject (handleFiles 3000 ex_uuids ex_urls (Some ex_files) ex_AB) = Some p'"
    "p_videos p' = newVideos_of ex_uuids ex_urls ex_files"
    by auto
  then show ?thesis
    by (simp add: ex_newVideos_eval)
qed

subsection \<open>The handlers keep the ids of the store\<close>

lemma map_p_id_keep:
  assumes "\<And>p. p_id (g p) = p_id p"
  shows "map p_id (map (\<lambda>proj. if c proj then proj else g proj) ps) = map p_id ps"
  using assms by (induction ps) auto

lemma updateActiveProjectVideos_ids:
  "map p_id (projects (updateActiveProjectVideos now act s)) = map p_id (projects s)"
  "activeProjectId (updateActiveProjectVideos now act s) = activeProjectId s"
  by (simp_all add: updateActiveProjectVideos_def Let_def map_p_id_keep)

lemma handleFiles_ids:
  "map p_id (projects (handleFiles now uuids urls files s)) = map p_id (projects s)"
  "activeProjectId (handleFiles now uuids urls files s) = activeProjectId s"
  by (simp_all add: handleFiles_def Let_def updateActiveProjectVideos_ids split: option.split)

lemma addToGallery_ids:
  "map p_id (projects (addToGallery uuid now1 now2 src type videoName s)) = map p_id (projects s)"
  "activeProjectId (addToGallery uuid now1 now2 src type videoName s) = activeProjectId s"
  by (simp_all add: addToGallery_def Let_def map_p_id_keep)

lemma removeFromGallery_ids:
  "map p_id (projects (removeFromGallery ident s)) = map p_id (projects s)"
  "activeProjectId (removeFromGallery ident s) = activeProjectId s"
  by (simp_all add: removeFromGallery_def map_p_id_keep)

lemma deleteSelected_ids:
  "map p_id (projects (deleteSelected confirmed s)) = map p_id (projects s)"
  "activeProjectId (deleteSelected confirmed s) = activeProjectId s"
  by (simp_all add: deleteSelected_def map_p_id_keep split: option.split)

lemma toggle_ids:
  "projects (toggleSelection ident s) = projects s"
  "activeProjectId (toggleSelection ident s) = activeProjectId s"
  "projects (toggleSelectAll s) = projects s"
  "activeProjectId (toggleSelectAll s) = activeProjectId s"
  by (simp_all add: toggleSelection_def toggleSelectAll_def split: option.split)

lemma active_in_store_cong:
  "map p_id (projects s') = map p_id (projects s) \<Longrightarrow> activeProjectId s' = activeProjectId s \<Longrightarrow>
   active_in_store s \<Longrightarrow> active_in_store s'"
  by (simp add: active_in_store_def)

lemma confirmCreateProject_active_in_store:
  "active_in_store s \<Longrightarrow> active_in_store (confirmCreateProject uuid now1 now2 s)"
  by (auto simp: confirmCreateProject_def active_in_store_def Let_def)

lemma deleteProject_active_in_store:
  "active_in_store s \<Longrightarrow> active_in_store (deleteProject confirmed projectId s)"
  by (auto simp: deleteProject_def active_in_store_def Let_def split: option.splits)

lemma reachable_active_in_store: "reachable s \<Longrightarrow> active_in_store s"
proof (induction rule: reachable.induct)
  case r_init
  show ?case by (simp add: active_in_store_def initialApp_def)
next
  case (r_name s n)
  then show ?case by (simp add: active_in_store_def setNewProjectName_def)
next
  case (r_ratio s r)
  then show ?case by (simp add: active_in_store_def setNewProjectRatio_def)
next
  case (r_creating s b)
  then show ?case by (simp add: active_in_store_def setIsCreatingProject_def)
next
  case (r_create s uuid now1 now2)
  then show ?case by (simp add: confirmCreateProject_active_in_store)
next
  case (r_delete s confirmed projectId)
  then show ?case by (simp add: deleteProject_active_in_store)
next
  case (r_open s projectId)
  then show ?case by (auto simp: active_in_store_def openProject_def)
next
  case (r_exit s)
  show ?case by (simp add: active_in_store_def exitProject_def)
next
  case (r_view s v)
  then show ?case by (simp add: active_in_store_def switchView_def)
next
  case (r_videos s now act)
  from r_videos.IH show ?case by (rule active_in_store_cong [OF updateActiveProjectVideos_ids])
next
  case (r_files s now uuids urls files)
  from r_files.IH show ?case by (rule active_in_store_cong [OF handleFiles_ids])
next
  case (r_add s uuid now1 now2 src type videoName)
  from r_add.IH show ?case by (rule active_in_store_cong [OF addToGallery_ids])
next
  case (r_remove s ident)
  from r_remove.IH show ?case by (rule active_in_store_cong [OF removeFromGallery_ids])
next
  case (r_toggle s ident)
  then show ?case by (simp add: active_in_store_def toggle_ids)
next
  case (r_toggle_all s)
  then show ?case by (simp add: active_in_store_def toggle_ids)
next
  case (r_delete_selected s confirmed)
  from r_delete_selected.IH show ?case by (rule active_in_store_cong [OF deleteSelected_ids])
qed

lemma reachable_ex_videos: "reachable ex_videos"
  unfolding ex_videos_def ex_AB_def ex_A_def by (intro reachable.intros)

section \<open>Deleting a project\<close>

text \<open>
  C7. Deleting the active project (the dialog confirmed) leaves no project active.
  Deleting any other project leaves the active id as it is and the active project as it
  is. In every state the interface can reach, the active id is null or the id of a
  project of the store.
\<close>

theorem deleteProject_active:
  "(activeProjectId s = Some projectId \<longrightarrow>
      activeProjectId (deleteProject True projectId s) = None) \<and>
   (activeProjectId s \<noteq> Some projectId \<longrightarrow>
      activeProjectId (deleteProject confirmed projectId s) = activeProjectId s \<and>
      activeProject (deleteProject confirmed projectId s) = activeProject s) \<and>
   (reachable s \<longrightarrow> active_in_store s)"
proof (intro conjI impI)
  assume "activeProjectId s = Some projectId"
  then show "activeProjectId (deleteProject True projectId s) = None"
    by (simp add: deleteProject_def Let_def)
next
  assume a: "activeProjectId s \<noteq> Some projectId"
  then show "activeProjectId (deleteProject confirmed projectId s) = activeProjectId s"
    by (simp add: deleteProject_def Let_def)
  have "find (\<lambda>p. Some (p_id p) = activeProjectId s)
          (filter (\<lambda>p. p_id p \<noteq> projectId) (projects s)) =
        find (\<lambda>p. Some (p_id p) = activeProjectId s) (projects s)"
    by (rule find_filter_keep) (use a in auto)
  with a show "activeProject (deleteProject confirmed projectId s) = activeProject s"
    by (simp add: deleteProject_def Let_def activeProject_def)
next
  assume "reachable s"
  then show "active_in_store s" by (rule reachable_active_in_store)
qed

theorem deleteProject_active_witness:
  "activeProjectId (deleteProject True ''B'' ex_videos) = None \<and>
   activeProjectId (deleteProject True ''A'' ex_videos) = Some ''B'' \<and>
   activeProject (deleteProject True ''A'' ex_videos) = activeProject ex_videos \<and>
   active_in_store ex_videos"
proof -
  have b: "activeProjectId ex_videos = Some ''B''"
    by (simp add: ex_videos_eval)
  then have a: "activeProjectId ex_videos \<noteq> Some ''A''"
    by simp
  from deleteProject_active [of ex_videos "''B''" True] b
  have 1: "activeProjectId (deleteProject True ''B'' ex_videos) = None"
    by blast
  from deleteProject_active [of ex_videos "''A''" True] a b reachable_ex_videos
  show ?thesis using 1 by simp
qed

section \<open>Reordering the timeline\<close>

lemma those_map_Some: "those (map Some xs) = Some xs"
  by (induction xs) simp_all

lemma length_swap: "length (swap i j xs) = length xs"
  by (simp add: swap_def)

lemma mset_swap_list: "i < length xs \<Longrightarrow> j < length xs \<Longrightarrow> mset (swap i j xs) = mset xs"
  unfolding swap_def by (rule mset_swap)

lemma moveVideo_in_range:
  assumes "index < length videos"
  shows "moveVideo index direction videos =
     map Some
       (case direction of
          Left \<Rightarrow> if index = 0 then videos else swap (index - 1) index videos
        | Right \<Rightarrow> if index = length videos - 1 then videos else swap (index + 1) index videos)"
proof (cases direction)
  case Left
  show ?thesis
  proof (cases "index = 0")
    case True
    then show ?thesis by (simp add: moveVideo_def Left)
  next
    case False
    with assms have "index - 1 < length videos" "0 < index" by simp_all
    with assms show ?thesis
      by (simp add: moveVideo_def Left js_get_def js_set_def swap_def Let_def map_update)
  qed
next
  case Right
  show ?thesis
  proof (cases "index = length videos - 1")
    case True
    with assms have "\<not> int index < int (length videos) - 1" by linarith
    with True show ?thesis by (simp add: moveVideo_def Right)
  next
    case False
    with assms have "index + 1 < length videos" by simp
    moreover from this have "int index < int (length videos) - 1" by linarith
    ultimately show ?thesis using assms False
      by (simp add: moveVideo_def Right js_get_def js_set_def swap_def Let_def map_update)
  qed
qed

lemma moveVideo_step:
  assumes "index < length videos"
  shows "\<exists>videos'. those (moveVideo index direction videos) = Some videos' \<and>
           length videos' = length videos \<and> mset videos' = mset videos"
proof -
  let ?r = "case direction of
          Left \<Rightarrow> if index = 0 then videos else swap (index - 1) index videos
        | Right \<Rightarrow> if index = length videos - 1 then videos else swap (index + 1) index videos"
  have "those (moveVideo index direction videos) = Some ?r"
    by (simp only: moveVideo_in_range [OF assms] those_map_Some)
  moreover have "length ?r = length videos"
    by (simp add: length_swap split: Direction.split)
  moreover have "mset ?r = mset videos"
    using assms by (cases direction) (auto simp: mset_swap_list)
  ultimately show ?thesis by blast
qed

lemma reorder_calls_mset:
  assumes "\<forall>c \<in> set cs. fst c < length videos"
  shows "\<exists>videos'. reorder_calls cs videos = Some videos' \<and>
           length videos' = length videos \<and> mset videos' = mset videos"
  using assms
proof (induction cs arbitrary: videos)
  case Nil
  show ?case by simp
next
  case (Cons c cs)
  obtain index direction where c: "c = (index, direction)" by (cases c)
  from Cons.prems c have "index < length videos" by simp
  from moveVideo_step [OF this, of direction]
  obtain v1 where v1: "those (moveVideo index direction videos) = Some v1"
      "length v1 = length videos" "mset v1 = mset videos"
    by blast
  from Cons.prems v1(2) have "\<forall>c \<in> set cs. fst c < length v1" by simp
  from Cons.IH [OF this]
  obtain v2 where "reorder_calls cs v1 = Some v2" "length v2 = length v1" "mset v2 = mset v1"
    by blast
  with v1 c show ?case by simp
qed

text \<open>
  C8. A \<open>moveVideo\<close> call whose index is a position of the list swaps the item there
  with its left or right neighbour, and leaves the list as it is at a boundary (index 0
  moving left, the last index moving right). Any sequence of such calls ends with a list
  of the same length and the same multiset of VideoItem ids.
\<close>

theorem reorder_preserves_ids:
  "(index < length videos \<longrightarrow>
      moveVideo index direction videos =
        map Some
          (case direction of
             Left \<Rightarrow> if index = 0 then videos else swap (index - 1) index videos
           | Right \<Rightarrow>
               if index = length videos - 1 then videos else swap (index + 1) index videos)) \<and>
   ((\<forall>c \<in> set cs. fst c < length videos) \<longrightarrow>
      (\<exists>videos'. reorder_calls cs videos = Some videos' \<and>
         length videos' = length videos \<and>
         mset (map v_id videos') = mset (map v_id videos)))"
proof (intro conjI impI)
  assume "index < length videos"
  then show "moveVideo index direction videos =
        map Some
          (case direction of
             Left \<Rightarrow> if index = 0 then videos else swap (index - 1) index videos
           | Right \<Rightarrow>
               if index = length videos - 1 then videos else swap (index + 1) index videos)"
    by (rule moveVideo_in_range)
next
  assume "\<forall>c \<in> set cs. fst c < length videos"
  from reorder_calls_mset [OF this]
  obtain videos' where v: "reorder_calls cs videos = Some videos'"
      "length videos' = length videos" "mset videos' = mset videos"
    by blast
  from v(3) have "mset (map v_id videos') = mset (map v_id videos)"
    by (metis mset_map)
  with v show "\<exists>videos'. reorder_calls cs videos = Some videos' \<and>
         length videos' = length videos \<and>
         mset (map v_id videos') = mset (map v_id videos)"
    by blast
qed

theorem reorder_preserves_ids_witness:
  "moveVideo 1 Left [ex_v1, ex_v2] = [Some ex_v2, Some ex_v1] \<and>
   moveVideo 1 Right [ex_v1, ex_v2] = [Some ex_v1, Some ex_v2] \<and>
   (\<exists>videos'. reorder_calls [(1, Left), (0, Left), (0, Right), (1, Right)] [ex_v1, ex_v2]
        = Some videos' \<and>
      mset (map v_id videos') = {#''v'', ''vi''#})"
proof -
  have 1: "moveVideo 1 Left [ex_v1, ex_v2] = [Some ex_v2, Some ex_v1]"
    using reorder_preserves_ids [of 1 "[ex_v1, ex_v2]" Left "[]"]
    by (simp add: swap_def)
  have 2: "moveVideo 1 Right [ex_v1, ex_v2] = [Some ex_v1, Some ex_v2]"
    using reorder_preserves_ids [of 1 "[ex_v1, ex_v2]" Right "[]"]
    by simp
  have ids: "mset (map v_id [ex_v1, ex_v2]) = {#''v'', ''vi''#}"
    by (simp add: ex_v1_def ex_v2_def)
  have pre: "\<forall>c \<in> set [(1, Left), (0, Left), (0, Right), (1, Right)].
      fst c < length [ex_v1, ex_v2]"
    by simp
  from reorder_preserves_ids
    [of 0 "[ex_v1, ex_v2]" Left "[(1, Left), (0, Left), (0, Right), (1, Right)]"] pre
  obtain videos' where
    "reorder_calls [(1, Left), (0, Left), (0, Right), (1, Right)] [ex_v1, ex_v2] = Some videos'"
    "mset (map v_id videos') = mset (map v_id [ex_v1, ex_v2])"
    by blast
  with ids have 3: "\<exists>videos'.
      reorder_calls [(1, Left), (0, Left), (0, Right), (1, Right)] [ex_v1, ex_v2] = Some videos' \<and>
      mset (map v_id videos') = {#''v'', ''vi''#}"
    by simp
  from 1 2 3 show ?thesis by simp
qed

text \<open>
  Past the end of the list a move to the left writes beyond the array: the result has a
  hole, and the sequence stops.
\<close>

lemma moveVideo_past_end:
  "moveVideo 2 Left [ex_v1, ex_v2] = [Some ex_v1, None, Some ex_v2]"
  "reorder_calls [(2, Left)] [ex_v1, ex_v2] = None"
  by (simp_all add: moveVideo_def js_get_def js_set_def Let_def)

section \<open>Batch export\<close>

lemma zip_file_keys: "fst ` set (zip_file name data es) = insert name (fst ` set es)"
  by (induction name data es rule: zip_file.induct) auto

lemma zip_file_distinct:
  "distinct (map fst es) \<Longrightarrow> distinct (map fst (zip_file name data es))"
  by (induction name data es rule: zip_file.induct) (auto simp: zip_file_keys)

lemma zip_selected_keys:
  "fst ` set (zip_selected items ident folder) =
     fst ` set folder \<union> set_option (selected_fileName items ident)"
  by (simp add: zip_selected_def selected_fileName_def zip_file_keys split: option.split)

lemma zip_selected_distinct:
  "distinct (map fst folder) \<Longrightarrow> distinct (map fst (zip_selected items ident folder))"
  by (simp add: zip_selected_def zip_file_distinct split: option.split)

lemma fold_zip_selected_keys:
  "fst ` set (fold (zip_selected items) sel folder) =
     fst ` set folder \<union> (\<Union>i \<in> set sel. set_option (selected_fileName items i))"
  by (induction sel arbitrary: folder) (simp_all add: zip_selected_keys Un_assoc)

lemma fold_zip_selected_distinct:
  "distinct (map fst folder) \<Longrightarrow> distinct (map fst (fold (zip_selected items) sel folder))"
  by (induction sel arbitrary: folder) (simp_all add: zip_selected_distinct)

lemma selected_fileName_in_gallery:
  assumes "ident \<in> set (map g_id items)"
  shows "\<exists>n. selected_fileName items ident = Some n"
proof -
  from assms have "find (\<lambda>i. g_id i = ident) items \<noteq> None"
    by (auto simp: find_None_iff)
  then show ?thesis by (auto simp: selected_fileName_def)
qed

text \<open>
  C2, as the code has it. For a selection of N ids of gallery items of the active
  project, \<open>downloadBatchZip\<close> hands the encoder a folder whose entry names are
  pairwise distinct and are exactly the file names derived from the selected items
  (stem of \<open>videoName\<close>, type, first four characters of the id). The folder has at
  most N entries, and exactly N when the derived names of the selected items are
  pairwise distinct.
\<close>

theorem downloadBatchZip_entries:
  assumes "activeProject s = Some p"
    and "selectedGalleryIds s \<noteq> []"
    and "set (selectedGalleryIds s) \<subseteq> set (map g_id (p_galleryItems p))"
  shows "\<exists>folder entries.
           downloadBatchZip s = Some (folder, entries) \<and>
           distinct (map fst entries) \<and>
           Some ` set (map fst entries) =
             selected_fileName (p_galleryItems p) ` set (selectedGalleryIds s) \<and>
           length entries \<le> length (selectedGalleryIds s) \<and>
           (distinct (map (selected_fileName (p_galleryItems p)) (selectedGalleryIds s)) \<longrightarrow>
              length entries = length (selectedGalleryIds s))"
proof -
  let ?sel = "selectedGalleryIds s"
  let ?items = "p_galleryItems p"
  let ?f = "selected_fileName ?items"
  let ?entries = "fold (zip_selected ?items) ?sel []"
  have dz: "downloadBatchZip s = Some (folderName_of (p_name p) @ ''_frames'', ?entries)"
    using assms(1,2) by (simp add: downloadBatchZip_def)
  have d: "distinct (map fst ?entries)"
    by (rule fold_zip_selected_distinct) simp
  have some: "\<forall>i \<in> set ?sel. \<exists>n. ?f i = Some n"
    using assms(3) selected_fileName_in_gallery by blast
  have keys: "Some ` set (map fst ?entries) = ?f ` set ?sel"
  proof -
    have "set (map fst ?entries) = (\<Union>i \<in> set ?sel. set_option (?f i))"
      by (simp add: fold_zip_selected_keys)
    with some show ?thesis by (force simp: image_iff)
  qed
  have "length ?entries = card (set (map fst ?entries))"
    using d by (metis distinct_card length_map)
  also have "\<dots> = card (Some ` set (map fst ?entries))"
    by (simp add: card_image)
  also have "\<dots> = card (set (map ?f ?sel))"
    using keys by simp
  finally have len: "length ?entries = card (set (map ?f ?sel))" .
  have le: "length ?entries \<le> length ?sel"
    unfolding len by (metis card_length length_map)
  have eq: "distinct (map ?f ?sel) \<longrightarrow> length ?entries = length ?sel"
    unfolding len by (metis distinct_card length_map)
  from dz d keys le eq show ?thesis by blast
qed

subsection \<open>The exports of the examples\<close>

lemma ex_export_eval:
  "ex_export = ex_gallery
     \<lparr>projects :=
        [\<lparr>p_id = ''B'', p_name = ''Beta'', p_aspectRatio = R16_9,
               p_createdAt = 2000, p_lastModified = 4200,
               p_videos = newVideos_of ex_uuids ex_urls ex_files,
               p_galleryItems = [ex_item3, ex_item2, ex_item1]\<rparr>,
              \<lparr>p_id = ''A'', p_name = ''Alpha'', p_aspectRatio = R16_9,
               p_createdAt = 1000, p_lastModified = 1000, p_videos = [], p_galleryItems = []\<rparr>],
      selectedGalleryIds := [''3f2a1b7c'', ''77aa0000'']\<rparr>"
  by (simp add: ex_export_def ex_gallery_eval addToGallery_def toggleSelection_def truthy_def
      Let_def Set_add_def ex_item1_def ex_item3_def)

lemma nameOnly_examples:
  "nameOnly_of ''one.mp4'' = ''one''" "nameOnly_of ''three.webm'' = ''three''"
  by (simp_all add: nameOnly_of_def lastIndexOf_def substring0_def)

lemma fileName_examples:
  "fileName_of ex_item1 = ''one_manual_3f2a.png''"
  "fileName_of ex_item2 = ''one_manual_3f2a.png''"
  "fileName_of ex_item3 = ''three_final_77aa.png''"
  by (simp_all add: fileName_of_def nameOnly_examples ex_item1_def ex_item2_def ex_item3_def)

lemma folderName_Beta: "folderName_of ''Beta'' = ''beta''"
  by code_simp

lemma data_examples:
  "split_comma_1 (g_src ex_item1) = Some ''AAAA''"
  "split_comma_1 (g_src ex_item2) = Some ''BBBB''"
  "split_comma_1 (g_src ex_item3) = Some ''CCCC''"
  by (simp_all add: split_comma_1_def ex_item1_def ex_item2_def ex_item3_def)

lemma ids_examples:
  "g_id ex_item1 = ''3f2a1b7c''" "g_id ex_item2 = ''3f2a9d4e''" "g_id ex_item3 = ''77aa0000''"
  by (simp_all add: ex_item1_def ex_item2_def ex_item3_def)

text \<open>
  C2 as stated fails: two selected items of one clip and one type whose ids share their
  first four characters get the same file name, and the folder holds one entry for them.
\<close>

theorem downloadBatchZip_collision:
  "selectedGalleryIds ex_selected = [g_id ex_item1, g_id ex_item2] \<and>
   g_id ex_item1 \<noteq> g_id ex_item2 \<and>
   map g_id (p_galleryItems (the (activeProject ex_selected))) = [g_id ex_item2, g_id ex_item1] \<and>
   downloadBatchZip ex_selected =
     Some (''beta_frames'', [(''one_manual_3f2a.png'', Some ''BBBB'')])"
  by (simp add: ex_selected_eval ex_gallery_eval downloadBatchZip_def activeProject_def
      zip_selected_def ids_examples fileName_examples data_examples folderName_Beta)

theorem downloadBatchZip_entries_witness:
  "\<exists>folder entries.
     downloadBatchZip ex_export = Some (folder, entries) \<and>
     set (map fst entries) = {''one_manual_3f2a.png'', ''three_final_77aa.png''} \<and>
     length entries = 2"
proof -
  let ?p = "\<lparr>p_id = ''B'', p_name = ''Beta'', p_aspectRatio = R16_9,
               p_createdAt = 2000, p_lastModified = 4200,
               p_videos = newVideos_of ex_uuids ex_urls ex_files,
               p_galleryItems = [ex_item3, ex_item2, ex_item1]\<rparr>"
  have ap: "activeProject ex_export = Some ?p"
    by (simp add: activeProject_def ex_export_eval ex_gallery_eval)
  have sel: "selectedGalleryIds ex_export = [''3f2a1b7c'', ''77aa0000'']"
    by (simp add: ex_export_eval)
  have ne: "selectedGalleryIds ex_export \<noteq> []"
    by (simp add: sel)
  have sub: "set (selectedGalleryIds ex_export) \<subseteq> set (map g_id (p_galleryItems ?p))"
    by (simp add: sel ids_examples)
  have names: "map (selected_fileName (p_galleryItems ?p)) (selectedGalleryIds ex_export) =
      [Some ''one_manual_3f2a.png'', Some ''three_final_77aa.png'']"
    by (simp add: sel selected_fileName_def ids_examples fileName_examples)
  from downloadBatchZip_entries [OF ap ne sub]
  obtain folder entries where e: "downloadBatchZip ex_export = Some (folder, entries)"
    "Some ` set (map fst entries) =
       selected_fileName (p_galleryItems ?p) ` set (selectedGalleryIds ex_export)"
    "distinct (map (selected_fileName (p_galleryItems ?p)) (selectedGalleryIds ex_export)) \<longrightarrow>
       length entries = length (selectedGalleryIds ex_export)"
    by blast
  have "distinct (map (selected_fileName (p_galleryItems ?p)) (selectedGalleryIds ex_export))"
    by (simp only: names) simp
  with e(3) have l: "length entries = 2"
    by (simp add: sel)
  have "selected_fileName (p_galleryItems ?p) ` set (selectedGalleryIds ex_export) =
      set (map (selected_fileName (p_galleryItems ?p)) (selectedGalleryIds ex_export))"
    by simp
  also have "\<dots> = Some ` {''one_manual_3f2a.png'', ''three_final_77aa.png''}"
    by (simp only: names) simp
  finally have "Some ` set (map fst entries) =
      Some ` {''one_manual_3f2a.png'', ''three_final_77aa.png''}"
    using e(2) by simp
  then have "set (map fst entries) = {''one_manual_3f2a.png'', ''three_final_77aa.png''}"
    by (simp only: inj_image_eq_iff [OF inj_Some])
  with e(1) l show ?thesis by blast
qed

section \<open>Creating a project\<close>

text \<open>
  C3, as the code has it. When the name typed is not blank, \<open>confirmCreateProject\<close>
  puts the new Project at the front of the store's sequence, the projects already there
  following in their order, makes it the active project and sets the view to Timeline.
  When the name is blank it changes nothing.
\<close>

theorem confirmCreateProject_prepends:
  "(trim (newProjectName s) \<noteq> [] \<longrightarrow>
      (\<exists>newProject.
         projects (confirmCreateProject uuid now1 now2 s) = newProject # projects s \<and>
         newProject =
           \<lparr>p_id = uuid, p_name = newProjectName s, p_aspectRatio = newProjectRatio s,
            p_createdAt = now1, p_lastModified = now2, p_videos = [], p_galleryItems = []\<rparr> \<and>
         activeProjectId (confirmCreateProject uuid now1 now2 s) = Some uuid \<and>
         activeProject (confirmCreateProject uuid now1 now2 s) = Some newProject \<and>
         currentView (confirmCreateProject uuid now1 now2 s) = Timeline)) \<and>
   (trim (newProjectName s) = [] \<longrightarrow> confirmCreateProject uuid now1 now2 s = s)"
  by (simp add: confirmCreateProject_def Let_def activeProject_def)

theorem confirmCreateProject_prepends_witness:
  "map p_id (projects ex_AB) = [''B'', ''A''] \<and>
   activeProjectId ex_AB = Some ''B'' \<and>
   currentView ex_AB = Timeline \<and>
   confirmCreateProject ''C'' 9000 9000 (setNewProjectName ''  '' ex_AB) =
     setNewProjectName ''  '' ex_AB"
proof -
  have blank: "trim (newProjectName (setNewProjectName ''  '' ex_AB)) = []"
    by (simp add: setNewProjectName_def trim_def js_whitespace_def)
  have name: "trim (newProjectName (setNewProjectName ''Beta'' (exitProject ex_A))) \<noteq> []"
    by (simp add: setNewProjectName_def trim_examples)
  have old: "map p_id (projects (setNewProjectName ''Beta'' (exitProject ex_A))) = [''A'']"
    by (simp add: setNewProjectName_def exitProject_def ex_A_eval)
  from confirmCreateProject_prepends
    [of "setNewProjectName ''Beta'' (exitProject ex_A)" "''B''" 2000 2000] name
  have "map p_id (projects ex_AB) =
      ''B'' # map p_id (projects (setNewProjectName ''Beta'' (exitProject ex_A)))"
    "activeProjectId ex_AB = Some ''B''" "currentView ex_AB = Timeline"
    unfolding ex_AB_def by auto
  moreover from confirmCreateProject_prepends
    [of "setNewProjectName ''  '' ex_AB" "''C''" 9000 9000] blank
  have "confirmCreateProject ''C'' 9000 9000 (setNewProjectName ''  '' ex_AB) =
     setNewProjectName ''  '' ex_AB"
    by blast
  ultimately show ?thesis using old by simp
qed

text \<open>
  C3 as stated fails: with project A in the store, the store after creating B is not
  the old sequence with B appended.
\<close>

theorem confirmCreateProject_not_appended:
  "projects (confirmCreateProject ''B'' 2000 2000 (setNewProjectName ''Beta'' (exitProject ex_A)))
     \<noteq> projects (setNewProjectName ''Beta'' (exitProject ex_A)) @
         [\<lparr>p_id = ''B'', p_name = ''Beta'', p_aspectRatio = R16_9,
           p_createdAt = 2000, p_lastModified = 2000, p_videos = [], p_galleryItems = []\<rparr>]"
  by (simp add: confirmCreateProject_def setNewProjectName_def exitProject_def ex_A_eval
      trim_examples)

section \<open>Automatic frame extraction\<close>

lemma captureAtTime_captures:
  "ve_captures (snd (captureAtTime frame time video)) = ve_captures video @ [time]"
  "ve_duration (snd (captureAtTime frame time video)) = ve_duration video"
  "fst (captureAtTime frame time video) = frame time"
  by (simp_all add: captureAtTime_def)

text \<open>
  C6, as the code has it. \<open>generateThumbs\<close> captures the first frame at 0.1 s and
  \<open>processAutomaticFrames\<close> at exactly 0 s; both capture the last frame at
  \<open>max(0, duration - 0.1)\<close>, which is \<open>duration - 0.1\<close> for every clip of at least
  0.1 s: 9.9 s for a clip of 10.0 s.
\<close>

theorem capture_times:
  "ve_captures (snd (generateThumbs frame v vc)) =
     ve_captures v @ [1 / 10, max 0 (ve_duration v - 1 / 10)] \<and>
   (1 / 10 \<le> ve_duration v \<longrightarrow>
      last (ve_captures (snd (generateThumbs frame v vc))) = ve_duration v - 1 / 10) \<and>
   (\<exists>st' v'. processAutomaticFrames frame (Some v) st = (st', Some v') \<and>
      ve_captures v' = ve_captures v @ [0, max 0 (ve_duration v - 1 / 10)] \<and>
      fp_firstFrame st' = Some (frame 0) \<and>
      fp_lastFrame st' = Some (frame (max 0 (ve_duration v - 1 / 10))) \<and>
      (1 / 10 \<le> ve_duration v \<longrightarrow> last (ve_captures v') = ve_duration v - 1 / 10))"
  by (simp add: generateThumbs_def processAutomaticFrames_def captureAtTime_def Let_def)

theorem capture_times_witness:
  "ve_captures (snd (generateThumbs ex_frame ex_video10 ex_card)) = [1 / 10, 99 / 10] \<and>
   (\<exists>st' v'. processAutomaticFrames ex_frame (Some ex_video10) ex_processor = (st', Some v') \<and>
      ve_captures v' = [0, 99 / 10] \<and>
      last (ve_captures v') = 99 / 10 \<and>
      fp_lastFrame st' = Some ''data:image/png;base64,TAIL'')"
proof -
  have d: "ve_duration ex_video10 = 10" "ve_captures ex_video10 = []"
    by (simp_all add: ex_video10_def)
  then have "1 / 10 \<le> ve_duration ex_video10" by simp
  with capture_times [of ex_frame ex_video10 ex_card ex_processor]
  show ?thesis
    by (auto simp: d ex_frame_def)
qed

text \<open>
  C6 as stated fails: on a clip of 10 s the captures of \<open>processAutomaticFrames\<close>
  are not at 0 + 0.1 and 10 - 0.1.
\<close>

theorem processAutomaticFrames_first_at_zero:
  "ve_captures (the (snd (processAutomaticFrames ex_frame (Some ex_video10) ex_processor)))
     \<noteq> [0 + 1 / 10, 10 - 1 / 10]"
  by (simp add: processAutomaticFrames_def captureAtTime_def Let_def ex_video10_def)

section \<open>Modification times\<close>

text \<open>
  C1 at a failing input. In the example session project B has two gallery items and was
  last modified at 4100. Removing one item with \<open>removeFromGallery\<close>, or both with
  \<open>deleteSelected\<close>, changes its gallery and leaves \<open>lastModified\<close> at 4100.
\<close>

theorem removeFromGallery_keeps_lastModified:
  "map p_galleryItems (projects ex_selected) = [[ex_item2, ex_item1], []] \<and>
   map p_lastModified (projects ex_selected) = [4100, 1000] \<and>
   map p_galleryItems (projects (removeFromGallery (g_id ex_item2) ex_selected)) =
     [[ex_item1], []] \<and>
   map p_lastModified (projects (removeFromGallery (g_id ex_item2) ex_selected)) = [4100, 1000] \<and>
   map p_galleryItems (projects (deleteSelected True ex_selected)) = [[], []] \<and>
   map p_lastModified (projects (deleteSelected True ex_selected)) = [4100, 1000]"
  by (simp add: ex_selected_eval ex_gallery_eval removeFromGallery_def deleteSelected_def
      activeProject_def truthy_def ids_examples)

section \<open>Deleting a video\<close>

text \<open>
  C4 at a failing input. In the example session project B holds two videos with the
  object URLs \<open>blob:\<close> and \<open>blob:u\<close>. The card's delete button takes the first
  video out of the list, and its URL stays registered; deleting the whole project
  revokes both.
\<close>

theorem onDelete_keeps_objectURL:
  "map (map v_url \<circ> p_videos) (projects ex_videos) = [[''blob:'', ''blob:u''], []] \<and>
   objectURLs ex_videos = {''blob:'', ''blob:u''} \<and>
   map (map v_url \<circ> p_videos) (projects (onDelete 5000 ''v'' ex_videos)) = [[''blob:u''], []] \<and>
   objectURLs (onDelete 5000 ''v'' ex_videos) = {''blob:'', ''blob:u''} \<and>
   objectURLs (deleteProject True ''B'' ex_videos) = {}"
  by (simp add: ex_videos_eval ex_newVideos_eval onDelete_def updateActiveProjectVideos_def
      deleteProject_def truthy_def Let_def)

text \<open>In general: the delete button revokes nothing, and the two removals of gallery
  items never touch a modification time.\<close>

lemma onDelete_never_revokes: "objectURLs (onDelete now videoId s) = objectURLs s"
  by (simp add: onDelete_def updateActiveProjectVideos_def)

lemma removeFromGallery_lastModified:
  "map p_lastModified (projects (removeFromGallery ident s)) = map p_lastModified (projects s)"
  by (simp add: removeFromGallery_def comp_def cong: if_cong)

lemma deleteSelected_lastModified:
  "map p_lastModified (projects (deleteSelected confirmed s)) = map p_lastModified (projects s)"
  by (simp add: deleteSelected_def comp_def split: option.split cong: if_cong)


text \<open>
  What does hold of the modification times: switching views leaves the store alone, the
  video updates and \<open>addToGallery\<close> stamp the active project with the clock reading
  they are given, and no handler breaks \<open>createdAt \<le> lastModified\<close> as long as the
  clock does not run backwards.
\<close>

lemma view_switches_keep_projects:
  "projects (switchView v s) = projects s"
  "projects (openProject projectId s) = projects s"
  "projects (exitProject s) = projects s"
  by (simp_all add: switchView_def openProject_def exitProject_def)

lemma updateActiveProjectVideos_lastModified:
  assumes "truthy (activeProjectId s)" and "activeProject s = Some p"
  shows "\<exists>p'. activeProject (updateActiveProjectVideos now act s) = Some p' \<and>
           p_lastModified p' = now \<and> p_createdAt p' = p_createdAt p"
proof -
  let ?f = "\<lambda>proj. if Some (p_id proj) \<noteq> activeProjectId s then proj
      else proj\<lparr>p_videos := (case act of UpdateFn f \<Rightarrow> f (p_videos proj) | NewVideos vs \<Rightarrow> vs),
                p_lastModified := now\<rparr>"
  have "activeProject (updateActiveProjectVideos now act s) = map_option ?f (activeProject s)"
    unfolding activeProject_def updateActiveProjectVideos_truthy [OF assms(1)]
    by (simp add: find_map_keep)
  moreover have "Some (p_id p) = activeProjectId s"
    using assms(2) by (auto simp: activeProject_def find_Some_iff)
  ultimately show ?thesis by (simp add: assms(2))
qed

lemma addToGallery_lastModified:
  assumes "truthy (activeProjectId s)" and "activeProject s = Some p"
  shows "\<exists>p'. activeProject (addToGallery uuid now1 now2 src type videoName s) = Some p' \<and>
           p_lastModified p' = now2 \<and> p_createdAt p' = p_createdAt p"
proof -
  let ?item = "\<lparr>g_id = uuid, g_src = src, g_type = type, g_videoName = videoName,
      g_createdAt = now1\<rparr>"
  let ?f = "\<lambda>proj. if Some (p_id proj) \<noteq> activeProjectId s then proj
      else proj\<lparr>p_galleryItems := ?item # p_galleryItems proj, p_lastModified := now2\<rparr>"
  have "activeProject (addToGallery uuid now1 now2 src type videoName s) =
      map_option ?f (activeProject s)"
    unfolding activeProject_def
    by (simp add: addToGallery_def assms(1) Let_def find_map_keep)
  moreover have "Some (p_id p) = activeProjectId s"
    using assms(2) by (auto simp: activeProject_def find_Some_iff)
  ultimately show ?thesis by (simp add: assms(2))
qed

lemma updateActiveProjectVideos_stamps:
  assumes "stamps_ok s" and "list_all (\<lambda>p. p_createdAt p \<le> now) (projects s)"
  shows "stamps_ok (updateActiveProjectVideos now act s)"
  using assms
  by (auto simp: updateActiveProjectVideos_def stamps_ok_def list_all_iff Let_def)

lemma addToGallery_stamps:
  assumes "stamps_ok s" and "list_all (\<lambda>p. p_createdAt p \<le> now2) (projects s)"
  shows "stamps_ok (addToGallery uuid now1 now2 src type videoName s)"
  using assms
  by (auto simp: addToGallery_def stamps_ok_def list_all_iff Let_def)

lemma confirmCreateProject_stamps:
  "stamps_ok s \<Longrightarrow> now1 \<le> now2 \<Longrightarrow> stamps_ok (confirmCreateProject uuid now1 now2 s)"
  by (simp add: confirmCreateProject_def stamps_ok_def Let_def)

lemma removals_stamps:
  "stamps_ok s \<Longrightarrow> stamps_ok (removeFromGallery ident s)"
  "stamps_ok s \<Longrightarrow> stamps_ok (deleteSelected confirmed s)"
  "stamps_ok s \<Longrightarrow> stamps_ok (deleteProject confirmed projectId s)"
  by (auto simp: removeFromGallery_def deleteSelected_def deleteProject_def stamps_ok_def
      list_all_iff Let_def split: option.splits)

end
